theory Spec2Isabelle
  imports Complex_Main
begin

section \<open>DNA purification protocol for the OT-2 pipetting robot\<close>

text \<open>
  The script \<^verbatim>\<open>dna_cleaning_blueprint.py\<close> is a straight-line sequence of calls into
  the robot's protocol API. Each helper of the script is embedded as the list of API
  statements it issues, in order (\<open>instr list\<close>); sequencing is \<open>@\<close>, a \<^verbatim>\<open>for\<close> loop
  over \<^verbatim>\<open>range(1, n+1)\<close> is \<open>concat (map body [1..n])\<close>. The function \<open>exec\<close> further
  down runs such a list against the robot: it keeps the pipettes' bottom clearances, the
  trace of the statements that were carried out, and stops at the first statement that
  raises, handing back the error together with the state reached.

  Python \<^verbatim>\<open>int\<close> is \<open>int\<close>. Python \<^verbatim>\<open>float\<close> is \<open>real\<close>, and arithmetic on it is
  exact, with one exception: where a property is about rounding itself, the quotient of
  line 78 is taken as the IEEE double nearest to it (\<open>stepwise_dispense_double\<close>).
\<close>

subsection \<open>Objects of the protocol API\<close>

datatype error =
  AttributeError | NameError | KeyError | TypeError | ValueError | ZeroDivisionError
  | OverflowError | RecursionError | DriverFault

datatype pipette = P300 | P10

datatype labware =
  Sample_plate | Resevoir | Resevoir_EtOH | Resevoir_trash | Clean_plate
  | Tiprack_7 | Tiprack_8 | Tiprack_9 | Tiprack_10 | Tiprack_11

type_synonym well = "labware \<times> string"

text \<open>
  A location is a well together with an offset in mm from the centre of the well's
  bottom: \<^verbatim>\<open>well.bottom(z=h)\<close> is \<open>Loc well 0 0 h\<close>, and \<^verbatim>\<open>loc.move(Point(dx, dy, dz))\<close>
  adds to the offset.
\<close>

datatype location = Loc well real real real

text \<open>
  The script is dynamically typed: \<^verbatim>\<open>custom_mix\<close> and \<^verbatim>\<open>stepwise_dispense\<close> receive
  whatever object the caller passes. \<open>pyobj\<close> is the sum of the kinds of API object that
  the script passes around: pipettes, wells, locations, and what \<^verbatim>\<open>well.bottom(z=c)\<close>
  gives for a complex number \<open>c\<close>, a location whose height is \<open>c\<close>.
\<close>

datatype pyobj =
  Pipette pipette | Well well | Location location | Complex_location well complex

datatype instr =
    Set_clearance_aspirate pyobj real
  | Set_clearance_dispense pyobj real
  | Set_flow_aspirate pyobj real
  | Set_flow_dispense pyobj real
  | Aspirate pyobj real pyobj real
  | Dispense pyobj real pyobj real
  | Blow_out pyobj "pyobj option"
  | Pick_up_tip pyobj "pyobj option"
  | Drop_tip pyobj
  | Return_tip pyobj
  | Transfer pyobj real pyobj pyobj bool
  | Home pyobj
  | Delay real
  | Engage
  | Disengage
  | Set_rail_lights bool
  | Load_module string int
  | Load_labware labware string int
  | Load_instrument pipette string string "labware list"
  | Set_paused bool
  | Set_done bool
  | Thread_start
  | Thread_join
  | Pause
  | Resume
  | Sleep real
  | Print string
  | Raise error

abbreviation p300 :: pyobj where "p300 \<equiv> Pipette P300"
abbreviation p10 :: pyobj where "p10 \<equiv> Pipette P10"

subsection \<open>Strings and well names\<close>

definition digit :: "nat \<Rightarrow> char" where
  "digit d = ''0123456789'' ! d"

fun str_nat :: "nat \<Rightarrow> string" where
  "str_nat n = (if n < 10 then [digit n] else str_nat (n div 10) @ [digit (n mod 10)])"

declare str_nat.simps [simp del]

text \<open>Python's \<^verbatim>\<open>str\<close> on an \<^verbatim>\<open>int\<close>.\<close>

definition str :: "int \<Rightarrow> string" where
  "str i = (if i < 0 then CHR ''-'' # str_nat (nat (- i)) else str_nat (nat i))"

text \<open>
  All labware of the run has the 96-well format (\<^verbatim>\<open>biorad_96_wellplate_200ul_pcr\<close>,
  \<^verbatim>\<open>usascientific_96_wellplate_2.4ml_deep\<close>, \<^verbatim>\<open>opentrons_96_tiprack_*\<close>): rows A to H,
  columns 1 to 12. \<^verbatim>\<open>labware[name]\<close> raises \<^verbatim>\<open>KeyError\<close> for any other name.
\<close>

definition well_names :: "string list" where
  "well_names = concat (map (\<lambda>r. map (\<lambda>c. r # str c) [1..12]) ''ABCDEFGH'')"

definition getitem :: "labware \<Rightarrow> string \<Rightarrow> error + well" where
  "getitem lw name = (if name \<in> set well_names then Inr (lw, name) else Inl KeyError)"

text \<open>
  \<^verbatim>\<open>obj.bottom(z=h)\<close>: only a well has the method; on a pipette or a location the
  attribute lookup raises.
\<close>

definition bottom_of :: "well \<Rightarrow> real \<Rightarrow> location" where
  "bottom_of w z = Loc w 0 0 z"

fun bottom :: "pyobj \<Rightarrow> real \<Rightarrow> error + pyobj" where
  "bottom (Well w) z = Inr (Location (bottom_of w z))"
| "bottom (Pipette p) z = Inl AttributeError"
| "bottom (Location l) z = Inl AttributeError"
| "bottom (Complex_location w c) z = Inl AttributeError"

fun bottom_complex :: "pyobj \<Rightarrow> complex \<Rightarrow> error + pyobj" where
  "bottom_complex (Well w) c = Inr (Complex_location w c)"
| "bottom_complex (Pipette p) c = Inl AttributeError"
| "bottom_complex (Location l) c = Inl AttributeError"
| "bottom_complex (Complex_location w c') c = Inl AttributeError"

fun move :: "location \<Rightarrow> real \<times> real \<times> real \<Rightarrow> location" where
  "move (Loc w x y z) (dx, dy, dz) = Loc w (x + dx) (y + dy) (z + dz)"

text \<open>
  A statement that looks a well up first: \<^verbatim>\<open>labware[name]\<close> is evaluated before the
  statement that uses it, so a missing well raises in its place.
\<close>

definition at_well :: "labware \<Rightarrow> string \<Rightarrow> (pyobj \<Rightarrow> instr list) \<Rightarrow> instr list" where
  "at_well lw name body =
     (case getitem lw name of Inl e \<Rightarrow> [Raise e] | Inr w \<Rightarrow> body (Well w))"

definition at_bottom ::
  "labware \<Rightarrow> string \<Rightarrow> real \<Rightarrow> (pyobj \<Rightarrow> instr list) \<Rightarrow> instr list" where
  "at_bottom lw name z body =
     (case getitem lw name of
        Inl e \<Rightarrow> [Raise e]
      | Inr w \<Rightarrow> body (Location (bottom_of w z)))"

subsection \<open>\<^verbatim>\<open>custom_mix\<close>\<close>

text \<open>
  Lines 54 to 60. The third positional argument of \<^verbatim>\<open>aspirate\<close> and \<^verbatim>\<open>dispense\<close> is the
  rate, here 1.
\<close>

definition custom_mix ::
  "pyobj \<Rightarrow> int \<Rightarrow> real \<Rightarrow> pyobj \<Rightarrow> real \<Rightarrow> real \<Rightarrow> instr list" where
  "custom_mix pipette repetitions volume well bottom_aspirate bottom_dispense =
     [Set_clearance_aspirate pipette bottom_aspirate,
      Set_clearance_dispense pipette bottom_dispense] @
     concat (replicate (nat repetitions)
       [Aspirate pipette volume well 1,
        Dispense pipette volume well 1]) @
     [Set_clearance_aspirate pipette 1,
      Set_clearance_dispense pipette 1]"

subsection \<open>\<^verbatim>\<open>stepwise_dispense\<close>\<close>

text \<open>
  Line 83, the height at which a step dispenses once \<open>volume_added\<close> \<mu>l are in the well.
  Python's \<^verbatim>\<open>x ** (1/2)\<close> is the square root for a float \<open>x \<ge> 0\<close>.
\<close>

definition dispense_height :: "real \<Rightarrow> real" where
  "dispense_height volume_added = (- 2.5 + sqrt (2.5\<^sup>2 + 4.9 + 1.42 * volume_added)) + 1"

text \<open>
  For a negative float \<open>x\<close>, \<^verbatim>\<open>x ** (1/2)\<close> is the complex principal square root, so
  that line 83 gives a complex height.
\<close>

definition dispense_height_complex :: "real \<Rightarrow> complex" where
  "dispense_height_complex volume_added =
     (- 2.5 + csqrt (complex_of_real (2.5\<^sup>2 + 4.9 + 1.42 * volume_added))) + 1"

text \<open>
  Lines 80 to 84, step \<open>i\<close> of the loop. The height is real for a radicand \<open>\<ge> 0\<close> and
  complex below; either way it is handed to \<^verbatim>\<open>bottom\<close> and the location to
  \<^verbatim>\<open>dispense\<close>.
\<close>

definition dispense_step :: "pyobj \<Rightarrow> real \<Rightarrow> pyobj \<Rightarrow> int \<Rightarrow> instr" where
  "dispense_step pipette step_volume location_dispense i =
     (let volume_added = (real_of_int i + 1) * step_volume in
      if 2.5\<^sup>2 + 4.9 + 1.42 * volume_added < 0
      then case bottom_complex location_dispense (dispense_height_complex volume_added) of
             Inl e \<Rightarrow> Raise e
           | Inr l \<Rightarrow> Dispense pipette step_volume l 1
      else case bottom location_dispense (dispense_height volume_added) of
             Inl e \<Rightarrow> Raise e
           | Inr l \<Rightarrow> Dispense pipette step_volume l 1)"

text \<open>
  Lines 78 to 84, arithmetic exact. \<^verbatim>\<open>volume/steps\<close> raises \<^verbatim>\<open>ZeroDivisionError\<close> for
  \<open>steps = 0\<close>; \<^verbatim>\<open>range(steps)\<close> is \<open>[0..steps - 1]\<close>, empty for a negative \<open>steps\<close>.
\<close>

definition stepwise_dispense :: "pyobj \<Rightarrow> real \<Rightarrow> pyobj \<Rightarrow> int \<Rightarrow> instr list" where
  "stepwise_dispense pipette volume location_dispense steps =
     (if steps = 0 then [Raise ZeroDivisionError]
      else let step_volume = volume / real_of_int steps
           in map (dispense_step pipette step_volume location_dispense) [0..steps - 1])"

text \<open>The volume a statement dispenses (0 for any other statement).\<close>

fun dispensed :: "instr \<Rightarrow> real" where
  "dispensed (Dispense p v l r) = v"
| "dispensed _ = 0"

subsection \<open>The quotient of line 78 in double precision\<close>

text \<open>
  A finite IEEE double is \<open>m \<sqdot> 2\<^sup>e\<close> with an integer \<open>\<bar>m\<bar> < 2\<^sup>5\<^sup>3\<close> and \<open>e \<ge> - 1074\<close>.
  \<open>scale2\<close> brings a number \<open>m \<sqdot> 2\<^sup>e\<close> to that form but for the rounding of \<open>m\<close>: it halves
  \<open>m\<close> while \<open>\<bar>m\<bar> \<ge> 2\<^sup>5\<^sup>3\<close> and doubles it while \<open>\<bar>m\<bar> < 2\<^sup>5\<^sup>2\<close> and \<open>e > - 1074\<close>; its first
  argument bounds the number of steps. \<open>ties_even\<close> rounds to the nearest integer, a tie
  to the even one. \<open>double x\<close> is \<open>x\<close> rounded to 53 binary digits (and to a multiple of
  \<open>2\<^sup>-\<^sup>1\<^sup>0\<^sup>7\<^sup>4\<close>): the double nearest to \<open>x\<close> whenever that is below \<open>2\<^sup>1\<^sup>0\<^sup>2\<^sup>4\<close> in size.
\<close>

definition pow2 :: "int \<Rightarrow> real" where
  "pow2 e = (if 0 \<le> e then 2 ^ nat e else 1 / 2 ^ nat (- e))"

definition ties_even :: "real \<Rightarrow> int" where
  "ties_even x =
     (let f = \<lfloor>x\<rfloor>; r = x - real_of_int f
      in if r < 1 / 2 then f
         else if 1 / 2 < r then f + 1
         else if even f then f else f + 1)"

function scale2 :: "nat \<Rightarrow> real \<Rightarrow> int \<Rightarrow> real \<times> int" where
  "scale2 n m e =
     (if n = 0 then (m, e)
      else if 2 ^ 53 \<le> \<bar>m\<bar> then scale2 (n - 1) (m / 2) (e + 1)
      else if \<bar>m\<bar> < 2 ^ 52 \<and> - 1074 < e then scale2 (n - 1) (m * 2) (e - 1)
      else (m, e))"
  by pat_completeness auto
termination
  by (relation "measure (\<lambda>(n, m, e). n)") auto

declare scale2.simps [simp del]

definition double :: "real \<Rightarrow> real" where
  "double x =
     (if x = 0 then 0
      else let (m, e) = scale2 2200 x 0 in real_of_int (ties_even m) * pow2 e)"

text \<open>
  Python's \<^verbatim>\<open>x / n\<close> for a number \<open>x\<close> and an \<^verbatim>\<open>int\<close> \<open>n\<close>: \<^verbatim>\<open>ZeroDivisionError\<close> for
  \<open>n = 0\<close>, else the double nearest to the quotient, and \<^verbatim>\<open>OverflowError\<close> when that is
  beyond the largest double (which takes an \<^verbatim>\<open>int\<close> \<open>x\<close> that no double holds).
\<close>

definition truediv :: "real \<Rightarrow> int \<Rightarrow> error + real" where
  "truediv x n =
     (if n = 0 then Inl ZeroDivisionError
      else let q = double (x / real_of_int n)
           in if 2 ^ 1024 \<le> \<bar>q\<bar> then Inl OverflowError else Inr q)"

text \<open>
  Lines 78 to 84 with the division of line 78 as Python carries it out; the double it
  gives is the volume of every step.
\<close>

definition stepwise_dispense_double ::
  "pyobj \<Rightarrow> real \<Rightarrow> pyobj \<Rightarrow> int \<Rightarrow> instr list" where
  "stepwise_dispense_double pipette volume location_dispense steps =
     (case truediv volume steps of
        Inl e \<Rightarrow> [Raise e]
      | Inr step_volume \<Rightarrow>
          map (dispense_step pipette step_volume location_dispense) [0..steps - 1])"

subsection \<open>The phases of \<^verbatim>\<open>run\<close>\<close>

text \<open>Lines 27 to 33: the values of the given names, \<^verbatim>\<open>KeyError\<close> for an unknown one.\<close>

definition all_values :: "(string \<times> string) list" where
  "all_values = [(''mag_mod'', ''magnetic module'')]"

definition get_values :: "string list \<Rightarrow> error + string list" where
  "get_values names =
     (if list_all (\<lambda>n. map_of all_values n \<noteq> None) names
      then Inr (map (\<lambda>n. the (map_of all_values n)) names)
      else Inl KeyError)"

text \<open>
  Lines 93 to 145: the rail lights, the two flags, the monitor thread, and the loading
  of module, labware and pipettes. \<^verbatim>\<open>[mag_mod] = get_values("mag_mod")\<close> unpacks a list
  of exactly one element.
\<close>

definition set_up :: "instr list" where
  "set_up =
     [Set_rail_lights True, Set_paused False, Set_done False, Thread_start] @
     (case get_values [''mag_mod''] of
        Inl e \<Rightarrow> [Raise e]
      | Inr [mag_mod] \<Rightarrow> [Load_module mag_mod 1]
      | Inr _ \<Rightarrow> [Raise ValueError]) @
     [Load_labware Sample_plate ''biorad_96_wellplate_200ul_pcr'' 1,
      Disengage,
      Load_labware Resevoir ''usascientific_96_wellplate_2.4ml_deep'' 2,
      Load_labware Resevoir_EtOH ''usascientific_96_wellplate_2.4ml_deep'' 5,
      Load_labware Resevoir_trash ''usascientific_96_wellplate_2.4ml_deep'' 6,
      Load_labware Clean_plate ''biorad_96_wellplate_200ul_pcr'' 3,
      Load_labware Tiprack_7 ''opentrons_96_tiprack_300ul'' 7,
      Load_labware Tiprack_8 ''opentrons_96_tiprack_300ul'' 8,
      Load_labware Tiprack_9 ''opentrons_96_tiprack_300ul'' 9,
      Load_labware Tiprack_10 ''opentrons_96_tiprack_300ul'' 10,
      Load_instrument P300 ''p300_multi'' ''right''
        [Tiprack_8, Tiprack_9, Tiprack_10, Tiprack_7],
      Load_labware Tiprack_11 ''opentrons_96_tiprack_10ul'' 11,
      Load_instrument P10 ''p10_multi'' ''left'' [Tiprack_11]]"

text \<open>
  Lines 157 to 172, the body of the bead loop for column \<open>i\<close>. Line 161 passes its
  arguments in the order written there: the well first, the pipette fourth.
\<close>

definition bead_binding :: "int \<Rightarrow> real \<Rightarrow> real \<Rightarrow> int \<Rightarrow> instr list" where
  "bead_binding columns vol_samples volBeads i =
     [Pick_up_tip p300 None] @
     (if columns = 1 \<or> columns = 6 then
        [Set_flow_aspirate p300 9, Set_flow_dispense p300 9] @
        at_well Resevoir ''A1'' (\<lambda>w. custom_mix w 30 15 p300 3 6)
      else []) @
     [Set_flow_aspirate p300 120, Set_flow_dispense p300 30] @
     at_bottom Resevoir ''A1'' 3 (\<lambda>l. [Aspirate p300 (volBeads + 10) l 1]) @
     at_bottom Sample_plate (''A'' @ str i) 5 (\<lambda>l. [Dispense p300 volBeads l 1]) @
     at_bottom Resevoir ''A1'' 20 (\<lambda>l. [Dispense p300 10 l 1]) @
     at_bottom Resevoir ''A1'' 20 (\<lambda>l. [Blow_out p300 (Some l)]) @
     [Set_flow_aspirate p300 60, Set_flow_dispense p300 60] @
     at_well Sample_plate (''A'' @ str i)
       (\<lambda>w. custom_mix p300 15 (vol_samples + volBeads - 10) w 0.6 3) @
     [Drop_tip p300]"

text \<open>Lines 182 to 192, the body of the supernatant loop for column \<open>i\<close>.\<close>

definition remove_supernatant :: "real \<Rightarrow> int \<Rightarrow> instr list" where
  "remove_supernatant v_tot i =
     [Pick_up_tip p300 None, Set_flow_aspirate p300 90] @
     at_bottom Sample_plate (''A'' @ str i) 5 (\<lambda>l. [Aspirate p300 (v_tot / 2 - 5) l 1]) @
     at_bottom Sample_plate (''A'' @ str i) 2 (\<lambda>l. [Aspirate p300 (v_tot / 2 - 5) l 1]) @
     at_bottom Sample_plate (''A'' @ str i) 0.5 (\<lambda>l. [Aspirate p300 5 l 1]) @
     at_bottom Sample_plate (''A'' @ str i) 0.2 (\<lambda>l. [Aspirate p300 5 l 1]) @
     at_bottom Sample_plate (''A'' @ str i) 0.1 (\<lambda>l. [Aspirate p300 5 l 1]) @
     at_bottom Sample_plate (''A'' @ str i) 0 (\<lambda>l. [Aspirate p300 5 l 1]) @
     [Drop_tip p300]"

text \<open>
  Lines 200 to 203, the body of the add-ethanol loop for column \<open>i\<close>. The third
  positional argument of \<^verbatim>\<open>aspirate\<close> in line 201 is the rate, 3.
\<close>

definition add_ethanol :: "int \<Rightarrow> instr list" where
  "add_ethanol i =
     at_well Tiprack_7 (''A'' @ str i) (\<lambda>w. [Pick_up_tip p300 (Some w)]) @
     at_bottom Resevoir_EtOH (''A'' @ str i) 3 (\<lambda>l. [Aspirate p300 190 l 3]) @
     at_well Sample_plate (''A'' @ str i) (\<lambda>w. stepwise_dispense p300 190 w 10) @
     [Return_tip p300]"

text \<open>
  The binding of a loop variable after \<^verbatim>\<open>for v in xs\<close>: the last element, or what it
  was before when the loop body never ran (\<open>None\<close>: unbound).
\<close>

definition for_var :: "int list \<Rightarrow> int option \<Rightarrow> int option" where
  "for_var xs v = (if xs = [] then v else Some (last xs))"

text \<open>
  Lines 212 to 228, the body of the remove-ethanol loop for column \<open>k\<close> in cycle \<open>j\<close>.
  Line 223 reads the variable \<open>i\<close>, which this loop does not bind: \<open>i\<close> is the binding
  that the loops before left (\<^verbatim>\<open>NameError\<close> when there is none).
\<close>

definition remove_ethanol :: "int \<Rightarrow> int \<Rightarrow> int option \<Rightarrow> int \<Rightarrow> instr list" where
  "remove_ethanol cleanings j i k =
     at_well Tiprack_7 (''A'' @ str k) (\<lambda>w. [Pick_up_tip p300 (Some w)]) @
     (case getitem Sample_plate (''A'' @ str k) of
        Inl e \<Rightarrow> [Raise e]
      | Inr w \<Rightarrow>
          (let center_location = bottom_of w 0.3;
               center_location_higher = move center_location (0, 0, 1.2);
               adjusted_location1 = move center_location (0.3, 0.3, 0.1);
               adjusted_location2 = move center_location (- 0.3, - 0.3, 0.1)
           in [Aspirate p300 150 (Location center_location_higher) 1,
               Aspirate p300 30 (Location center_location) 1,
               Aspirate p300 20 (Location adjusted_location1) 1,
               Aspirate p300 20 (Location adjusted_location2) 1])) @
     (case i of
        None \<Rightarrow> [Raise NameError]
      | Some i' \<Rightarrow> at_bottom Resevoir_trash (''A'' @ str i') 3 (\<lambda>l. [Dispense p300 220 l 1])) @
     (if j < cleanings then [Return_tip p300]
      else if j = cleanings then [Drop_tip p300]
      else [])"

text \<open>
  Lines 196 to 228, wash cycle \<open>j\<close>; \<open>i\<close> is the binding of the variable \<open>i\<close> on entry.
\<close>

definition wash_cycle :: "int \<Rightarrow> int \<Rightarrow> int option \<Rightarrow> int \<Rightarrow> instr list" where
  "wash_cycle columns cleanings i j =
     [Set_flow_aspirate p300 60, Set_flow_dispense p300 30] @
     concat (map add_ethanol [1..columns]) @
     (if columns < 4 then [Delay 30] else []) @
     [Set_flow_aspirate p300 90, Set_flow_dispense p300 100] @
     concat (map (remove_ethanol cleanings j (for_var [1..columns] i)) [1..columns])"

text \<open>
  Lines 236 to 247, the body of the elution loop for column \<open>i\<close>. Both transfers of the
  script pass \<^verbatim>\<open>new_tip='never'\<close>; the flag of \<open>Transfer\<close> is \<^verbatim>\<open>blow_out\<close>.
\<close>

definition elution :: "real \<Rightarrow> int \<Rightarrow> instr list" where
  "elution vol_EB i =
     [Set_flow_aspirate p300 120, Set_flow_dispense p300 120, Pick_up_tip p300 None] @
     at_bottom Resevoir ''A3'' 3
       (\<lambda>src. at_well Sample_plate (''A'' @ str i)
          (\<lambda>dst. [Transfer p300 vol_EB src dst True])) @
     at_well Sample_plate (''A'' @ str i)
       (\<lambda>w. custom_mix p300 30 (vol_EB - 3) w 0.4 1.5) @
     [Drop_tip p300]"

text \<open>Lines 257 to 264, the body of the last loop for column \<open>i\<close>.\<close>

definition transfer_clean :: "real \<Rightarrow> int \<Rightarrow> instr list" where
  "transfer_clean vol_EB i =
     [Pick_up_tip p10 None] @
     at_bottom Sample_plate (''A'' @ str i) 1
       (\<lambda>src. at_bottom Clean_plate (''A'' @ str i) 1
          (\<lambda>dst. [Transfer p10 (vol_EB - 3) src dst False])) @
     [Blow_out p10 None, Drop_tip p10]"

record params =
  no_samples :: int
  vol_samples :: real
  ratio :: real
  cleanings :: int
  vol_EB :: real

text \<open>The values at the end of the script (lines 281 to 285).\<close>

definition default_params :: params where
  "default_params =
     \<lparr>no_samples = 20, vol_samples = 20, ratio = 0.8, cleanings = 1, vol_EB = 15\<rparr>"

text \<open>
  Lines 91 to 273. \<^verbatim>\<open>math.ceil(no_samples / 8)\<close> is the ceiling of the quotient; delays
  are in seconds.
\<close>

definition run :: "params \<Rightarrow> instr list" where
  "run P =
     (let columns = \<lceil>real_of_int (no_samples P) / 8\<rceil>;
          volBeads = vol_samples P * ratio P;
          v_tot = volBeads + vol_samples P
      in set_up @
         concat (map (bead_binding columns (vol_samples P) volBeads) [1..columns]) @
         [Delay 300, Engage, Delay 300] @
         concat (map (remove_supernatant v_tot) [1..columns]) @
         concat (map (wash_cycle columns (cleanings P) (for_var [1..columns] None))
                   [1..cleanings P]) @
         [Delay 300, Disengage] @
         concat (map (elution (vol_EB P)) [1..columns]) @
         [Engage, Delay 60] @
         [Set_flow_aspirate p10 3, Set_flow_dispense p10 10] @
         concat (map (transfer_clean (vol_EB P)) [1..columns]) @
         [Home p300, Disengage, Set_done True, Thread_join, Print ''Protocol Complete''])"

subsection \<open>Running the statements against the robot\<close>

text \<open>
  The robot keeps, per pipette, the bottom clearances for aspirating and dispensing
  (1 mm each when a pipette is loaded), and the trace of the statements carried out.
\<close>

record robot =
  clearance_aspirate :: "pipette \<Rightarrow> real"
  clearance_dispense :: "pipette \<Rightarrow> real"
  trace :: "instr list"

definition init_robot :: robot where
  "init_robot = \<lparr>clearance_aspirate = (\<lambda>p. 1), clearance_dispense = (\<lambda>p. 1), trace = []\<rparr>"

text \<open>
  The robot driver is not part of the script. Whether a call into it raises is a
  parameter: a predicate on the trace so far and the call.
\<close>

type_synonym driver = "instr list \<Rightarrow> instr \<Rightarrow> bool"

definition no_fault :: driver where
  "no_fault h c = False"

definition done_stmt :: "instr \<Rightarrow> robot \<Rightarrow> robot" where
  "done_stmt c st = st\<lparr>trace := trace st @ [c]\<rparr>"

definition call :: "driver \<Rightarrow> instr \<Rightarrow> robot \<Rightarrow> (error \<times> robot) + robot" where
  "call flt c st = (if flt (trace st) c then Inl (DriverFault, st) else Inr (done_stmt c st))"

text \<open>
  Looking up a pipette attribute or method on an object that is not a pipette raises
  \<^verbatim>\<open>AttributeError\<close>.
\<close>

fun the_pipette :: "pyobj \<Rightarrow> error + pipette" where
  "the_pipette (Pipette p) = Inr p"
| "the_pipette (Well w) = Inl AttributeError"
| "the_pipette (Location l) = Inl AttributeError"
| "the_pipette (Complex_location w c) = Inl AttributeError"

text \<open>
  Where a pipette aspirates or dispenses: at the location given, or, given a well, at
  the clearance above its bottom.
\<close>

fun target :: "real \<Rightarrow> pyobj \<Rightarrow> error + pyobj" where
  "target clearance (Location l) = Inr (Location l)"
| "target clearance (Well w) = Inr (Location (bottom_of w clearance))"
| "target clearance (Complex_location w c) = Inr (Complex_location w c)"
| "target clearance (Pipette p) = Inl TypeError"

definition on_pipette ::
  "pyobj \<Rightarrow> robot \<Rightarrow> (pipette \<Rightarrow> (error \<times> robot) + robot) \<Rightarrow> (error \<times> robot) + robot" where
  "on_pipette obj st f = (case the_pipette obj of Inl e \<Rightarrow> Inl (e, st) | Inr p \<Rightarrow> f p)"

fun step :: "driver \<Rightarrow> instr \<Rightarrow> robot \<Rightarrow> (error \<times> robot) + robot" where
  "step flt (Raise e) st = Inl (e, st)"
| "step flt (Set_clearance_aspirate obj h) st =
     on_pipette obj st (\<lambda>p. Inr (done_stmt (Set_clearance_aspirate obj h)
       (st\<lparr>clearance_aspirate := (clearance_aspirate st)(p := h)\<rparr>)))"
| "step flt (Set_clearance_dispense obj h) st =
     on_pipette obj st (\<lambda>p. Inr (done_stmt (Set_clearance_dispense obj h)
       (st\<lparr>clearance_dispense := (clearance_dispense st)(p := h)\<rparr>)))"
| "step flt (Set_flow_aspirate obj r) st =
     on_pipette obj st (\<lambda>p. Inr (done_stmt (Set_flow_aspirate obj r) st))"
| "step flt (Set_flow_dispense obj r) st =
     on_pipette obj st (\<lambda>p. Inr (done_stmt (Set_flow_dispense obj r) st))"
| "step flt (Aspirate obj v l r) st =
     on_pipette obj st (\<lambda>p.
       case target (clearance_aspirate st p) l of
         Inl e \<Rightarrow> Inl (e, st)
       | Inr l' \<Rightarrow> call flt (Aspirate obj v l' r) st)"
| "step flt (Dispense obj v l r) st =
     on_pipette obj st (\<lambda>p.
       case target (clearance_dispense st p) l of
         Inl e \<Rightarrow> Inl (e, st)
       | Inr l' \<Rightarrow> call flt (Dispense obj v l' r) st)"
| "step flt (Blow_out obj l) st = on_pipette obj st (\<lambda>p. call flt (Blow_out obj l) st)"
| "step flt (Pick_up_tip obj l) st = on_pipette obj st (\<lambda>p. call flt (Pick_up_tip obj l) st)"
| "step flt (Drop_tip obj) st = on_pipette obj st (\<lambda>p. call flt (Drop_tip obj) st)"
| "step flt (Return_tip obj) st = on_pipette obj st (\<lambda>p. call flt (Return_tip obj) st)"
| "step flt (Transfer obj v src dst b) st =
     on_pipette obj st (\<lambda>p. call flt (Transfer obj v src dst b) st)"
| "step flt (Home obj) st = on_pipette obj st (\<lambda>p. call flt (Home obj) st)"
| "step flt (Set_paused b) st = Inr (done_stmt (Set_paused b) st)"
| "step flt (Set_done b) st = Inr (done_stmt (Set_done b) st)"
| "step flt (Print s) st = Inr (done_stmt (Print s) st)"
| "step flt Thread_start st = Inr (done_stmt Thread_start st)"
| "step flt Thread_join st = Inr (done_stmt Thread_join st)"
| "step flt (Sleep t) st = Inr (done_stmt (Sleep t) st)"
| "step flt c st = call flt c st"

fun exec :: "driver \<Rightarrow> instr list \<Rightarrow> robot \<Rightarrow> (error \<times> robot) + robot" where
  "exec flt [] st = Inr st"
| "exec flt (c # cs) st =
     (case step flt c st of Inl e \<Rightarrow> Inl e | Inr st' \<Rightarrow> exec flt cs st')"

text \<open>The state in which a run ended, and the error it ended with, if any.\<close>

fun final_state :: "(error \<times> robot) + robot \<Rightarrow> robot" where
  "final_state (Inl (e, st)) = st"
| "final_state (Inr st) = st"

fun raised :: "(error \<times> robot) + robot \<Rightarrow> error option" where
  "raised (Inl (e, st)) = Some e"
| "raised (Inr st) = None"

subsection \<open>The pause monitor\<close>

text \<open>
  Lines 104 to 113, one check. \<^verbatim>\<open>protocol.door_closed\<close> is read at each of the three
  \<^verbatim>\<open>if\<close>s; \<open>d1\<close>, \<open>d2\<close>, \<open>d3\<close> are the three readings. The result is the list of calls
  made and the new value of \<open>paused\<close>.
\<close>

definition notice :: string where
  "notice = ''Protocol paused. Close the door to the robot to resume.''"

definition check_door :: "bool \<Rightarrow> bool \<Rightarrow> bool \<Rightarrow> bool \<Rightarrow> instr list \<times> bool" where
  "check_door d1 d2 d3 paused =
     (let (c1, p1) = (if \<not> paused \<and> \<not> d1 then ([Pause], True) else ([], paused));
          (c2, p2) = (if p1 \<and> d2 then ([Resume], False) else ([], p1));
          c3 = (if p2 \<and> \<not> d3 then [Print notice] else [])
      in (c1 @ c2 @ c3, p2))"

text \<open>
  Lines 101 to 121. What the thread sees of its surroundings in one round: the three
  door readings, the flag \<open>done\<close>, and whether the main thread is alive. The rounds it
  will see are given as a list; \<open>None\<close> says that the list ended before the thread did.
  Every round is one more call of \<^verbatim>\<open>check_pause\<close> within the last: \<open>frames\<close> is the
  number of calls the interpreter's recursion limit still allows, and the call beyond it
  raises \<^verbatim>\<open>RecursionError\<close>, which ends the thread. The result holds that error, if any,
  the calls made and the last value of \<open>paused\<close>.
\<close>

record observation =
  door1 :: bool
  door2 :: bool
  door3 :: bool
  done_flag :: bool
  main_alive :: bool

fun check_pause ::
  "nat \<Rightarrow> observation list \<Rightarrow> bool \<Rightarrow> (error option \<times> instr list \<times> bool) option" where
  "check_pause frames [] paused = None"
| "check_pause 0 (r # rs) paused = Some (Some RecursionError, [], paused)"
| "check_pause (Suc frames) (r # rs) paused =
     (let (cs, p) = check_door (door1 r) (door2 r) (door3 r) paused;
          run_canceled = \<not> main_alive r
      in if \<not> done_flag r \<and> \<not> run_canceled
         then (case check_pause frames rs p of
                 None \<Rightarrow> None
               | Some (e, cs', p') \<Rightarrow> Some (e, cs @ [Sleep 1] @ cs', p'))
         else Some (None, cs @ [Sleep 1], p))"

subsection \<open>Reading a list of statements\<close>

text \<open>
  The aspirations and the dispenses in a list of statements, each as volume and place;
  the height of a place above the well bottom; the statements that end the use of a tip.
\<close>

fun aspiration :: "instr \<Rightarrow> (real \<times> pyobj) option" where
  "aspiration (Aspirate p v l r) = Some (v, l)"
| "aspiration _ = None"

fun dispensing :: "instr \<Rightarrow> (real \<times> pyobj) option" where
  "dispensing (Dispense p v l r) = Some (v, l)"
| "dispensing _ = None"

definition aspirations :: "instr list \<Rightarrow> (real \<times> pyobj) list" where
  "aspirations cs = List.map_filter aspiration cs"

definition dispenses :: "instr list \<Rightarrow> (real \<times> pyobj) list" where
  "dispenses cs = List.map_filter dispensing cs"

fun height :: "pyobj \<Rightarrow> real" where
  "height (Location (Loc w x y z)) = z"
| "height _ = 0"

fun tip_end :: "instr \<Rightarrow> bool" where
  "tip_end (Return_tip p) = True"
| "tip_end (Drop_tip p) = True"
| "tip_end _ = False"

text \<open>A driver on which every aspiration fails.\<close>

fun is_aspirate :: "instr \<Rightarrow> bool" where
  "is_aspirate (Aspirate p v l r) = True"
| "is_aspirate _ = False"

definition aspirate_jams :: driver where
  "aspirate_jams h c = is_aspirate c"

text \<open>
  Statements that cannot raise on their own account: the receiver is a pipette, and the
  place of an aspiration or a dispense is a well or a location.
\<close>

fun is_pipette :: "pyobj \<Rightarrow> bool" where
  "is_pipette (Pipette p) = True"
| "is_pipette _ = False"

fun well_typed :: "instr \<Rightarrow> bool" where
  "well_typed (Raise e) = False"
| "well_typed (Set_clearance_aspirate obj h) = is_pipette obj"
| "well_typed (Set_clearance_dispense obj h) = is_pipette obj"
| "well_typed (Set_flow_aspirate obj r) = is_pipette obj"
| "well_typed (Set_flow_dispense obj r) = is_pipette obj"
| "well_typed (Aspirate obj v l r) = (is_pipette obj \<and> \<not> is_pipette l)"
| "well_typed (Dispense obj v l r) = (is_pipette obj \<and> \<not> is_pipette l)"
| "well_typed (Blow_out obj l) = is_pipette obj"
| "well_typed (Pick_up_tip obj l) = is_pipette obj"
| "well_typed (Drop_tip obj) = is_pipette obj"
| "well_typed (Return_tip obj) = is_pipette obj"
| "well_typed (Transfer obj v src dst b) = is_pipette obj"
| "well_typed (Home obj) = is_pipette obj"
| "well_typed _ = True"

section \<open>Properties\<close>

subsection \<open>Evaluation of names and of the interpreter\<close>

lemma str_small:
  "str 1 = ''1''" "str 2 = ''2''" "str 3 = ''3''" "str 4 = ''4''" "str 5 = ''5''"
  "str 6 = ''6''" "str 7 = ''7''" "str 8 = ''8''" "str 9 = ''9''" "str 10 = ''10''"
  "str 11 = ''11''" "str 12 = ''12''"
  by (simp_all add: str_def str_nat.simps digit_def)

lemma getitem_A:
  "1 \<le> i \<Longrightarrow> i \<le> 12 \<Longrightarrow> getitem lw (''A'' @ str i) = Inr (lw, ''A'' @ str i)"
  by (simp add: getitem_def well_names_def)

lemma getitem_A1: "getitem lw ''A1'' = Inr (lw, ''A1'')"
  using getitem_A[of 1 lw] by (simp add: str_small)

lemma getitem_A3: "getitem lw ''A3'' = Inr (lw, ''A3'')"
  using getitem_A[of 3 lw] by (simp add: str_small)

lemma exec_append:
  "exec flt (xs @ ys) st =
     (case exec flt xs st of Inl e \<Rightarrow> Inl e | Inr st' \<Rightarrow> exec flt ys st')"
  by (induction xs arbitrary: st) (auto split: sum.splits)

lemma upto_shift: "[0..n - 1] = map (\<lambda>i. i - 1) [1..n]"
proof (induction "nat n" arbitrary: n)
  case 0
  then show ?case by simp
next
  case (Suc x)
  then have "x = nat (n - 1)" and n: "1 \<le> n" by simp_all
  then have "[0..(n - 1) - 1] = map (\<lambda>i. i - 1) [1..n - 1]"
    using Suc.hyps(1) by blast
  moreover have "[0..n - 1] = [0..(n - 1) - 1] @ [n - 1]"
    using n by (simp add: upto_rec2)
  moreover have "[1..n] = [1..n - 1] @ [n]"
    using n by (simp add: upto_rec2)
  ultimately show ?case by simp
qed

subsection \<open>Stepwise dispense and the height estimate\<close>

lemma dispense_step_well:
  assumes "0 \<le> 2.5\<^sup>2 + 4.9 + 1.42 * (real_of_int j * sv)"
  shows "dispense_step (Pipette p) sv (Well w) (j - 1) =
         Dispense (Pipette p) sv
           (Location (Loc w 0 0 (dispense_height (real_of_int j * sv)))) 1"
proof -
  have "(real_of_int (j - 1) + 1) * sv = real_of_int j * sv" by simp
  then show ?thesis
    using assms unfolding dispense_step_def Let_def
    by (simp add: not_less bottom_of_def)
qed

lemma radicand_nonneg:
  assumes "1 \<le> i" "i \<le> S" and "0 \<le> 2.5\<^sup>2 + 4.9 + 1.42 * V"
  shows "0 \<le> 2.5\<^sup>2 + 4.9 + 1.42 * (real_of_int i * (V / real_of_int S))"
proof -
  define t where "t = real_of_int i / real_of_int S"
  have t: "0 \<le> t" "t \<le> 1" using assms(1,2) by (simp_all add: t_def)
  have eq: "real_of_int i * (V / real_of_int S) = t * V" by (simp add: t_def)
  have "0 \<le> 2.5\<^sup>2 + 4.9 + 1.42 * (t * V)"
  proof (cases "0 \<le> V")
    case True
    then have "0 \<le> t * V" using t by simp
    then show ?thesis by (simp add: power2_eq_square)
  next
    case False
    then have "V \<le> t * V" using t by (simp add: mult_le_cancel_right2)
    then show ?thesis using assms(3) by simp
  qed
  then show ?thesis unfolding eq .
qed

lemma stepwise_dispense_map:
  assumes "1 \<le> S" and "0 \<le> 2.5\<^sup>2 + 4.9 + 1.42 * V"
  shows "stepwise_dispense (Pipette p) V (Well w) S =
         map (\<lambda>i. Dispense (Pipette p) (V / real_of_int S)
                (Location (Loc w 0 0 (dispense_height (real_of_int i * (V / real_of_int S))))) 1)
             [1..S]"
proof -
  have "stepwise_dispense (Pipette p) V (Well w) S =
        map (\<lambda>i. dispense_step (Pipette p) (V / real_of_int S) (Well w) (i - 1)) [1..S]"
    using assms(1) by (simp add: stepwise_dispense_def upto_shift comp_def)
  also have "\<dots> =
        map (\<lambda>i. Dispense (Pipette p) (V / real_of_int S)
               (Location (Loc w 0 0 (dispense_height (real_of_int i * (V / real_of_int S))))) 1)
            [1..S]"
  proof (rule map_cong[OF refl])
    fix i assume "i \<in> set [1..S]"
    then have "1 \<le> i" "i \<le> S" by simp_all
    from radicand_nonneg[OF this assms(2)]
    show "dispense_step (Pipette p) (V / real_of_int S) (Well w) (i - 1) =
          Dispense (Pipette p) (V / real_of_int S)
            (Location (Loc w 0 0 (dispense_height (real_of_int i * (V / real_of_int S))))) 1"
      by (rule dispense_step_well)
  qed
  finally show ?thesis .
qed

lemma dispensed_dispense_step:
  "dispensed (dispense_step (Pipette p) sv (Well w) i) = sv"
  by (simp add: dispense_step_def Let_def)

lemma stepwise_dispense_double_sum:
  assumes "1 \<le> S" and "truediv V S = Inr q"
  shows "sum_list (map dispensed (stepwise_dispense_double (Pipette p) V (Well w) S)) =
         real_of_int S * q"
proof -
  have "sum_list (map dispensed (stepwise_dispense_double (Pipette p) V (Well w) S)) =
        (\<Sum>i\<leftarrow>[0..S - 1]. q)"
    using assms(2)
    by (simp add: stepwise_dispense_double_def comp_def dispensed_dispense_step)
  also have "\<dots> = real (nat S) * q"
    by (simp add: sum_list_triv)
  finally show ?thesis using assms(1) by simp
qed

lemma truediv_zero: "n \<noteq> 0 \<Longrightarrow> truediv 0 n = Inr 0"
  by (simp add: truediv_def double_def)

lemma truediv_190_10: "truediv 190 10 = Inr 19"
  by (simp add: truediv_def double_def scale2.simps ties_even_def pow2_def)

lemma truediv_200_6: "truediv 200 6 = Inr ((200 + 1 / 2 ^ 46) / 6)"
  by (simp add: truediv_def double_def scale2.simps ties_even_def pow2_def)

text \<open>
  Where line 78 gives the exact quotient, as for the one call of the script, the steps
  are those of the exact model.
\<close>

lemma stepwise_dispense_double_exact:
  "truediv V S = Inr (V / real_of_int S) \<Longrightarrow>
   stepwise_dispense_double p V l S = stepwise_dispense p V l S"
  by (auto simp: stepwise_dispense_double_def stepwise_dispense_def truediv_def
      split: if_splits)

lemma add_ethanol_step_volume:
  "stepwise_dispense_double p 190 l 10 = stepwise_dispense p 190 l 10"
  using truediv_190_10 by (intro stepwise_dispense_double_exact) simp

text \<open>
  Claim C5, as it stands, fails: line 78 divides in double precision. For a total of
  200 \<mu>l in 6 steps the volume of every step is the double nearest to \<open>200 / 6\<close>, and the
  six volumes add up to \<open>200 + 2\<^sup>-\<^sup>4\<^sup>6\<close>, not to 200.
\<close>

theorem stepwise_dispense_rounding_counterexample:
  "sum_list (map dispensed
     (stepwise_dispense_double (Pipette P300) 200 (Well (Sample_plate, ''A1'')) 6)) =
     200 + 1 / 2 ^ 46
   \<and> sum_list (map dispensed
     (stepwise_dispense_double (Pipette P300) 200 (Well (Sample_plate, ''A1'')) 6)) \<noteq> 200"
  by (simp add: stepwise_dispense_double_sum[OF _ truediv_200_6])

text \<open>
  Claim C5, amended. For every total volume \<open>V\<close> and every step count \<open>S \<ge> 1\<close>, the
  volumes of the dispenses that \<open>stepwise_dispense\<close> issues add up to \<open>V\<close> exactly if and
  only if the division of line 78 gives the quotient \<open>V / S\<close> itself, that is, if \<open>V / S\<close>
  is a double, as it is for the one call of the script, \<open>190 / 10\<close>.
\<close>

theorem stepwise_dispense_total:
  assumes "1 \<le> S"
  shows "sum_list (map dispensed (stepwise_dispense_double (Pipette p) V (Well w) S)) = V
         \<longleftrightarrow> truediv V S = Inr (V / real_of_int S)"
proof (cases "truediv V S")
  case (Inl e)
  then have "V \<noteq> 0" using assms truediv_zero[of S] by auto
  then show ?thesis using Inl by (simp add: stepwise_dispense_double_def)
next
  case (Inr q)
  have "real_of_int S * q = V \<longleftrightarrow> q = V / real_of_int S"
    using assms by (auto simp: field_simps)
  then show ?thesis using Inr by (simp add: stepwise_dispense_double_sum[OF assms Inr])
qed

theorem stepwise_dispense_total_witness:
  "(1::int) \<le> 10 \<and> truediv 190 10 = Inr (190 / real_of_int 10)
   \<and> sum_list (map dispensed
       (stepwise_dispense_double (Pipette P300) 190 (Well (Sample_plate, ''A1'')) 10)) = 190"
  using stepwise_dispense_total[of 10 P300 190 "(Sample_plate, ''A1'')"] truediv_190_10
  by simp



lemma sqrt_radicand_lower: "3.339 < sqrt (2.5\<^sup>2 + 4.9)"
  by (rule real_less_rsqrt) (simp add: power2_eq_square)

lemma sqrt_radicand_upper: "sqrt (2.5\<^sup>2 + 4.9) < 3.34"
  by (rule real_less_lsqrt) (simp_all add: power2_eq_square)

text \<open>
  Claim C7. At volume 0 the height estimate is the value of the formula as written,
  \<open>(- 2.5 + sqrt (2.5\<^sup>2 + 4.9)) + 1\<close>, which lies between 1.839 and 1.84 mm: the 1 mm
  margin on top of the estimated level \<open>sqrt 11.15 - 2.5\<close>, not 1 mm itself. It is the
  least height the estimate takes on volumes \<open>V \<ge> 0\<close>.
\<close>

theorem dispense_height_zero:
  "dispense_height 0 = (- 2.5 + sqrt (2.5\<^sup>2 + 4.9)) + 1
   \<and> dispense_height 0 = (sqrt 11.15 - 2.5) + 1
   \<and> 1.839 < dispense_height 0 \<and> dispense_height 0 < 1.84
   \<and> (0 \<le> V \<longrightarrow> dispense_height 0 \<le> dispense_height V)"
proof -
  have "(2.5::real)\<^sup>2 + 4.9 = 11.15" by (simp add: power2_eq_square)
  then show ?thesis
    using sqrt_radicand_lower sqrt_radicand_upper by (simp add: dispense_height_def)
qed

theorem dispense_height_zero_witness:
  "(0::real) \<le> 190 \<and> dispense_height 0 \<le> dispense_height 190
   \<and> 1.839 < dispense_height 0 \<and> dispense_height 0 < 1.84"
  using dispense_height_zero[of 190] by simp

text \<open>
  Claim C10. The height estimate does not decrease when the volume grows: for
  \<open>0 \<le> V1 \<le> V2\<close> the height at \<open>V1\<close> is at most the height at \<open>V2\<close>.
\<close>

theorem dispense_height_mono:
  "0 \<le> V1 \<Longrightarrow> V1 \<le> V2 \<Longrightarrow> dispense_height V1 \<le> dispense_height V2"
  by (simp add: dispense_height_def)

theorem dispense_height_mono_witness:
  "(0::real) \<le> 19 \<and> (19::real) \<le> 38 \<and> dispense_height 19 \<le> dispense_height 38"
  using dispense_height_mono[of 19 38] by simp

subsection \<open>The mixing primitive and the bottom clearances\<close>

lemma step_mix_clearance:
  assumes "c = Aspirate (Pipette p) v w r \<or> c = Dispense (Pipette p) v w r"
  shows "clearance_aspirate (final_state (step flt c st)) = clearance_aspirate st
       \<and> clearance_dispense (final_state (step flt c st)) = clearance_dispense st"
  using assms
  by (cases "target (clearance_aspirate st p) w"; cases "target (clearance_dispense st p) w")
     (auto simp: on_pipette_def call_def done_stmt_def)

lemma mix_loop_clearance:
  "clearance_aspirate (final_state (exec flt
      (concat (replicate n [Aspirate (Pipette p) v w 1, Dispense (Pipette p) v w 1])) st))
     = clearance_aspirate st
   \<and> clearance_dispense (final_state (exec flt
      (concat (replicate n [Aspirate (Pipette p) v w 1, Dispense (Pipette p) v w 1])) st))
     = clearance_dispense st"
proof (induction n arbitrary: st)
  case 0
  then show ?case by simp
next
  case (Suc n)
  let ?A = "Aspirate (Pipette p) v w 1" and ?D = "Dispense (Pipette p) v w 1"
  have a: "clearance_aspirate (final_state (step flt ?A st)) = clearance_aspirate st"
          "clearance_dispense (final_state (step flt ?A st)) = clearance_dispense st"
    using step_mix_clearance[where c = "?A" and p = p and v = v and w = w and r = 1
        and flt = flt and st = st]
    by simp_all
  show ?case
  proof (cases "step flt ?A st")
    case (Inl e)
    then show ?thesis using a by (cases e) simp
  next
    case (Inr st1)
    have d: "clearance_aspirate (final_state (step flt ?D st1)) = clearance_aspirate st1"
            "clearance_dispense (final_state (step flt ?D st1)) = clearance_dispense st1"
      using step_mix_clearance[where c = "?D" and p = p and v = v and w = w and r = 1
          and flt = flt and st = st1]
      by simp_all
    show ?thesis
    proof (cases "step flt ?D st1")
      case (Inl e)
      then show ?thesis using a d Inr by (cases e) simp
    next
      case (Inr st2)
      then show ?thesis
        using a d \<open>step flt ?A st = Inr st1\<close> Suc.IH[of st2] by simp
    qed
  qed
qed

text \<open>
  Both ways out of \<open>custom_mix\<close> on a pipette: it returns with the clearances at 1 mm, or
  it raises with the clearances at the two heights it was given.
\<close>

lemma custom_mix_outcome:
  "case exec flt (custom_mix (Pipette p) reps v w a d) st of
     Inr st' \<Rightarrow> clearance_aspirate st' p = 1 \<and> clearance_dispense st' p = 1
   | Inl (e, st') \<Rightarrow> clearance_aspirate st' p = a \<and> clearance_dispense st' p = d"
proof -
  let ?loop = "concat (replicate (nat reps)
                 [Aspirate (Pipette p) v w 1, Dispense (Pipette p) v w 1])"
  let ?pre = "[Set_clearance_aspirate (Pipette p) a, Set_clearance_dispense (Pipette p) d]"
  let ?post = "[Set_clearance_aspirate (Pipette p) 1, Set_clearance_dispense (Pipette p) 1]"
  obtain st0 where pre: "exec flt ?pre st = Inr st0"
    and st0: "clearance_aspirate st0 p = a" "clearance_dispense st0 p = d"
    by (simp add: on_pipette_def done_stmt_def)
  have e: "exec flt (custom_mix (Pipette p) reps v w a d) st =
           (case exec flt ?loop st0 of Inl x \<Rightarrow> Inl x | Inr st1 \<Rightarrow> exec flt ?post st1)"
    unfolding custom_mix_def exec_append pre by simp
  have keep: "clearance_aspirate (final_state (exec flt ?loop st0)) = clearance_aspirate st0"
             "clearance_dispense (final_state (exec flt ?loop st0)) = clearance_dispense st0"
    using mix_loop_clearance[where flt = flt and n = "nat reps" and p = p and v = v
        and w = w and st = st0]
    by simp_all
  show ?thesis
  proof (cases "exec flt ?loop st0")
    case (Inl x)
    then show ?thesis using e keep st0 by (cases x) simp
  next
    case (Inr st1)
    then show ?thesis using e by (simp add: on_pipette_def done_stmt_def)
  qed
qed

text \<open>
  Claim C2, as it stands, fails: on a driver whose aspirations fail, the mix of line 171
  (15 repetitions of 26 \<mu>l, heights 0.6 and 3) ends in the driver's error with the
  clearances of the pipette left at 0.6 mm and 3 mm.
\<close>

theorem custom_mix_fault_counterexample:
  "raised (exec aspirate_jams
     (custom_mix p300 15 26 (Well (Sample_plate, ''A1'')) 0.6 3) init_robot) = Some DriverFault
   \<and> clearance_aspirate (final_state (exec aspirate_jams
       (custom_mix p300 15 26 (Well (Sample_plate, ''A1'')) 0.6 3) init_robot)) P300 = 0.6
   \<and> clearance_dispense (final_state (exec aspirate_jams
       (custom_mix p300 15 26 (Well (Sample_plate, ''A1'')) 0.6 3) init_robot)) P300 = 3"
  by (simp add: custom_mix_def on_pipette_def call_def done_stmt_def aspirate_jams_def
      init_robot_def eval_nat_numeral bottom_of_def)

text \<open>
  Claim C2, amended. Whenever \<open>custom_mix\<close>, called on a pipette with any repetition
  count, volume, place and pair of heights, returns, the aspirate and dispense bottom
  clearances of that pipette are 1 mm.
\<close>

theorem custom_mix_returns_default:
  "exec flt (custom_mix (Pipette p) reps v w a d) st = Inr st' \<Longrightarrow>
   clearance_aspirate st' p = 1 \<and> clearance_dispense st' p = 1"
  using custom_mix_outcome[where flt = flt and p = p and reps = reps and v = v and w = w
      and a = a and d = d and st = st]
  by simp

theorem custom_mix_returns_default_witness:
  "exec no_fault (custom_mix p300 2 26 (Well (Sample_plate, ''A1'')) 0.6 3) init_robot =
     Inr (final_state (exec no_fault
       (custom_mix p300 2 26 (Well (Sample_plate, ''A1'')) 0.6 3) init_robot))
   \<and> clearance_aspirate (final_state (exec no_fault
       (custom_mix p300 2 26 (Well (Sample_plate, ''A1'')) 0.6 3) init_robot)) P300 = 1
   \<and> clearance_dispense (final_state (exec no_fault
       (custom_mix p300 2 26 (Well (Sample_plate, ''A1'')) 0.6 3) init_robot)) P300 = 1"
proof -
  have h: "exec no_fault (custom_mix p300 2 26 (Well (Sample_plate, ''A1'')) 0.6 3) init_robot =
     Inr (final_state (exec no_fault
       (custom_mix p300 2 26 (Well (Sample_plate, ''A1'')) 0.6 3) init_robot))"
    by (simp add: custom_mix_def on_pipette_def call_def done_stmt_def no_fault_def
        init_robot_def numeral_2_eq_2 bottom_of_def)
  from custom_mix_returns_default[OF h] h show ?thesis by simp
qed

subsection \<open>Supernatant removal\<close>

lemma at_bottom_A:
  "1 \<le> i \<Longrightarrow> i \<le> 12 \<Longrightarrow>
   at_bottom lw (''A'' @ str i) z body = body (Location (Loc (lw, ''A'' @ str i) 0 0 z))"
  using getitem_A[of i lw] by (simp add: at_bottom_def bottom_of_def)

lemma at_well_A:
  "1 \<le> i \<Longrightarrow> i \<le> 12 \<Longrightarrow>
   at_well lw (''A'' @ str i) body = body (Well (lw, ''A'' @ str i))"
  using getitem_A[of i lw] by (simp add: at_well_def)

lemma remove_supernatant_eq:
  assumes "1 \<le> i" "i \<le> 12"
  shows "remove_supernatant v_tot i =
    [Pick_up_tip p300 None, Set_flow_aspirate p300 90,
     Aspirate p300 (v_tot / 2 - 5) (Location (Loc (Sample_plate, ''A'' @ str i) 0 0 5)) 1,
     Aspirate p300 (v_tot / 2 - 5) (Location (Loc (Sample_plate, ''A'' @ str i) 0 0 2)) 1,
     Aspirate p300 5 (Location (Loc (Sample_plate, ''A'' @ str i) 0 0 0.5)) 1,
     Aspirate p300 5 (Location (Loc (Sample_plate, ''A'' @ str i) 0 0 0.2)) 1,
     Aspirate p300 5 (Location (Loc (Sample_plate, ''A'' @ str i) 0 0 0.1)) 1,
     Aspirate p300 5 (Location (Loc (Sample_plate, ''A'' @ str i) 0 0 0)) 1,
     Drop_tip p300]"
  unfolding remove_supernatant_def using at_bottom_A[OF assms, of Sample_plate] by simp

text \<open>
  Claim C3, as it stands, fails: with the values of the script (20 \<mu>l of sample, ratio
  0.8, so 36 \<mu>l of beads and sample) the six aspirations of column 1 take up 46 \<mu>l,
  not 36 \<mu>l.
\<close>

theorem supernatant_total_counterexample:
  "sum_list (map fst (aspirations (remove_supernatant (20 * 0.8 + 20) 1))) = 46
   \<and> sum_list (map fst (aspirations (remove_supernatant (20 * 0.8 + 20) 1))) \<noteq> 20 * 0.8 + 20"
  by (simp add: remove_supernatant_eq aspirations_def map_filter_simps)

text \<open>
  Claim C3, amended. For every column (1 to 12) the supernatant is removed in six
  aspirations at the sample well: two of half the combined volume less 5 \<mu>l, then four
  of 5 \<mu>l, at the heights 5, 2, 0.5, 0.2, 0.1 and 0 mm above the well bottom, which
  strictly descend. Together they take up the combined volume of beads and sample and
  10 \<mu>l more.
\<close>

theorem supernatant_aspirations:
  assumes "1 \<le> i" "i \<le> 12"
  shows "aspirations (remove_supernatant v_tot i) =
     [(v_tot / 2 - 5, Location (Loc (Sample_plate, ''A'' @ str i) 0 0 5)),
      (v_tot / 2 - 5, Location (Loc (Sample_plate, ''A'' @ str i) 0 0 2)),
      (5, Location (Loc (Sample_plate, ''A'' @ str i) 0 0 0.5)),
      (5, Location (Loc (Sample_plate, ''A'' @ str i) 0 0 0.2)),
      (5, Location (Loc (Sample_plate, ''A'' @ str i) 0 0 0.1)),
      (5, Location (Loc (Sample_plate, ''A'' @ str i) 0 0 0))]
   \<and> sum_list (map fst (aspirations (remove_supernatant v_tot i))) = v_tot + 10
   \<and> map (height \<circ> snd) (aspirations (remove_supernatant v_tot i)) = [5, 2, 0.5, 0.2, 0.1, 0]
   \<and> sorted_wrt (>) (map (height \<circ> snd) (aspirations (remove_supernatant v_tot i)))"
  by (simp add: remove_supernatant_eq[OF assms] aspirations_def map_filter_simps)

theorem supernatant_aspirations_witness:
  "aspirations (remove_supernatant 36 3) =
     [(13, Location (Loc (Sample_plate, ''A3'') 0 0 5)),
      (13, Location (Loc (Sample_plate, ''A3'') 0 0 2)),
      (5, Location (Loc (Sample_plate, ''A3'') 0 0 0.5)),
      (5, Location (Loc (Sample_plate, ''A3'') 0 0 0.2)),
      (5, Location (Loc (Sample_plate, ''A3'') 0 0 0.1)),
      (5, Location (Loc (Sample_plate, ''A3'') 0 0 0))]
   \<and> sum_list (map fst (aspirations (remove_supernatant 36 3))) = 46"
  using supernatant_aspirations[of 3 36] by (simp add: str_small)

subsection \<open>Wash cycles\<close>

lemma for_var_columns: "1 \<le> columns \<Longrightarrow> for_var [1..columns] i = Some columns"
  by (simp add: for_var_def upto_rec2)

lemma remove_ethanol_eq:
  assumes "1 \<le> k" "k \<le> 12" "1 \<le> i" "i \<le> 12"
  shows "remove_ethanol n j (Some i) k =
    [Pick_up_tip p300 (Some (Well (Tiprack_7, ''A'' @ str k))),
     Aspirate p300 150 (Location (Loc (Sample_plate, ''A'' @ str k) 0 0 1.5)) 1,
     Aspirate p300 30 (Location (Loc (Sample_plate, ''A'' @ str k) 0 0 0.3)) 1,
     Aspirate p300 20 (Location (Loc (Sample_plate, ''A'' @ str k) 0.3 0.3 0.4)) 1,
     Aspirate p300 20 (Location (Loc (Sample_plate, ''A'' @ str k) (- 0.3) (- 0.3) 0.4)) 1,
     Dispense p300 220 (Location (Loc (Resevoir_trash, ''A'' @ str i) 0 0 3)) 1] @
    (if j < n then [Return_tip p300]
     else if j = n then [Drop_tip p300] else [])"
  unfolding remove_ethanol_def
  using at_well_A[OF assms(1,2), of Tiprack_7] getitem_A[OF assms(1,2), of Sample_plate]
    at_bottom_A[OF assms(3,4), of Resevoir_trash]
  by (simp add: bottom_of_def)

lemma dispenses_concat_map:
  "dispenses (concat (map f xs)) = concat (map (\<lambda>k. dispenses (f k)) xs)"
  by (induction xs) (simp_all add: dispenses_def map_filter_def)

text \<open>
  Claim C4. In the remove-ethanol loop of a wash cycle, where the variable \<open>i\<close> holds
  what the add-ethanol loop over the columns left in it, the 220 \<mu>l taken from column
  \<open>k\<close> are dispensed, for every column \<open>k\<close>, into the one trash well
  \<^verbatim>\<open>'A' + str(columns)\<close>, while the four aspirations are at the sample well of column
  \<open>k\<close>. Over the whole loop all the dispenses, one per column, go to that one well.
\<close>

theorem ethanol_trash_well:
  assumes "1 \<le> k" "k \<le> columns" "columns \<le> 12"
  shows "dispenses (remove_ethanol n j (for_var [1..columns] i) k) =
           [(220, Location (Loc (Resevoir_trash, ''A'' @ str columns) 0 0 3))]
       \<and> aspirations (remove_ethanol n j (for_var [1..columns] i) k) =
           [(150, Location (Loc (Sample_plate, ''A'' @ str k) 0 0 1.5)),
            (30, Location (Loc (Sample_plate, ''A'' @ str k) 0 0 0.3)),
            (20, Location (Loc (Sample_plate, ''A'' @ str k) 0.3 0.3 0.4)),
            (20, Location (Loc (Sample_plate, ''A'' @ str k) (- 0.3) (- 0.3) 0.4))]
       \<and> dispenses (concat (map (remove_ethanol n j (for_var [1..columns] i)) [1..columns])) =
           replicate (nat columns)
             (220, Location (Loc (Resevoir_trash, ''A'' @ str columns) 0 0 3))"
proof -
  have c: "1 \<le> columns" "k \<le> 12" using assms by simp_all
  have one: "dispenses (remove_ethanol n j (Some columns) k') =
           [(220, Location (Loc (Resevoir_trash, ''A'' @ str columns) 0 0 3))]"
    if "k' \<in> set [1..columns]" for k'
  proof -
    from that have "1 \<le> k'" "k' \<le> 12" using assms(3) by simp_all
    then show ?thesis
      by (simp add: remove_ethanol_eq[OF _ _ c(1) assms(3)] dispenses_def map_filter_simps)
  qed
  have "dispenses (concat (map (remove_ethanol n j (Some columns)) [1..columns])) =
        concat (map (\<lambda>k. [(220, Location (Loc (Resevoir_trash, ''A'' @ str columns) 0 0 3))])
          [1..columns])"
    unfolding dispenses_concat_map
    by (rule arg_cong[where f = concat], rule map_cong[OF refl]) (rule one)
  then have loop: "dispenses (concat (map (remove_ethanol n j (Some columns)) [1..columns])) =
        replicate (nat columns)
          (220, Location (Loc (Resevoir_trash, ''A'' @ str columns) 0 0 3))"
    using c(1) by (simp add: map_replicate_const)
  show ?thesis
    using loop
    by (simp add: for_var_columns[OF c(1)]
        remove_ethanol_eq[OF assms(1) c(2) c(1) assms(3)]
        dispenses_def aspirations_def map_filter_simps)
qed

theorem ethanol_trash_well_witness:
  "dispenses (remove_ethanol 1 1 (for_var [1..3] None) 2) =
     [(220, Location (Loc (Resevoir_trash, ''A3'') 0 0 3))]
   \<and> aspirations (remove_ethanol 1 1 (for_var [1..3] None) 2) =
     [(150, Location (Loc (Sample_plate, ''A2'') 0 0 1.5)),
      (30, Location (Loc (Sample_plate, ''A2'') 0 0 0.3)),
      (20, Location (Loc (Sample_plate, ''A2'') 0.3 0.3 0.4)),
      (20, Location (Loc (Sample_plate, ''A2'') (- 0.3) (- 0.3) 0.4))]
   \<and> dispenses (concat (map (remove_ethanol 1 1 (for_var [1..3] None)) [1..3])) =
     [(220, Location (Loc (Resevoir_trash, ''A3'') 0 0 3)),
      (220, Location (Loc (Resevoir_trash, ''A3'') 0 0 3)),
      (220, Location (Loc (Resevoir_trash, ''A3'') 0 0 3))]"
  using ethanol_trash_well[of 2 3 1 1 None] by (simp add: str_small eval_nat_numeral)

text \<open>
  Claim C9. With \<open>n \<ge> 1\<close> wash cycles, the removal of ethanol from a column ends, in
  every cycle \<open>j < n\<close>, with the tip returned to the rack, and in the last cycle \<open>j = n\<close>
  with the tip dropped; it is the only statement there that ends the use of a tip.
\<close>

theorem wash_tip_policy:
  assumes "1 \<le> j" "j \<le> n" "1 \<le> k" "k \<le> columns" "columns \<le> 12"
  shows "filter tip_end (remove_ethanol n j (for_var [1..columns] i) k) =
           [if j < n then Return_tip p300 else Drop_tip p300]
       \<and> last (remove_ethanol n j (for_var [1..columns] i) k) =
           (if j < n then Return_tip p300 else Drop_tip p300)"
proof -
  have c: "1 \<le> columns" "k \<le> 12" using assms by simp_all
  show ?thesis
    using assms(2)
    by (simp add: for_var_columns[OF c(1)]
        remove_ethanol_eq[OF assms(3) c(2) c(1) assms(5)])
qed

theorem wash_tip_policy_witness:
  "last (remove_ethanol 3 1 (for_var [1..3] None) 2) = Return_tip p300
   \<and> last (remove_ethanol 3 2 (for_var [1..3] None) 2) = Return_tip p300
   \<and> last (remove_ethanol 3 3 (for_var [1..3] None) 2) = Drop_tip p300"
  using wash_tip_policy[of 1 3 2 3 None] wash_tip_policy[of 2 3 2 3 None]
    wash_tip_policy[of 3 3 2 3 None]
  by simp

subsection \<open>The pre-mix of the bead-binding phase\<close>

lemma set_up_eq:
  "set_up =
     [Set_rail_lights True, Set_paused False, Set_done False, Thread_start,
      Load_module ''magnetic module'' 1,
      Load_labware Sample_plate ''biorad_96_wellplate_200ul_pcr'' 1,
      Disengage,
      Load_labware Resevoir ''usascientific_96_wellplate_2.4ml_deep'' 2,
      Load_labware Resevoir_EtOH ''usascientific_96_wellplate_2.4ml_deep'' 5,
      Load_labware Resevoir_trash ''usascientific_96_wellplate_2.4ml_deep'' 6,
      Load_labware Clean_plate ''biorad_96_wellplate_200ul_pcr'' 3,
      Load_labware Tiprack_7 ''opentrons_96_tiprack_300ul'' 7,
      Load_labware Tiprack_8 ''opentrons_96_tiprack_300ul'' 8,
      Load_labware Tiprack_9 ''opentrons_96_tiprack_300ul'' 9,
      Load_labware Tiprack_10 ''opentrons_96_tiprack_300ul'' 10,
      Load_instrument P300 ''p300_multi'' ''right''
        [Tiprack_8, Tiprack_9, Tiprack_10, Tiprack_7],
      Load_labware Tiprack_11 ''opentrons_96_tiprack_10ul'' 11,
      Load_instrument P10 ''p10_multi'' ''left'' [Tiprack_11]]"
  by (simp add: set_up_def get_values_def all_values_def)

lemma exec_set_up:
  "exec no_fault set_up init_robot = Inr (init_robot\<lparr>trace := set_up\<rparr>)"
  unfolding set_up_eq
  by (simp add: init_robot_def no_fault_def call_def done_stmt_def on_pipette_def)

text \<open>
  With 1 or 6 columns the body of the bead loop reaches line 161, whose call hands
  \<open>custom_mix\<close> a well where it expects the pipette: the first statement of \<open>custom_mix\<close>
  raises.
\<close>

lemma premix_raises:
  assumes "columns = 1 \<or> columns = 6"
  shows "exec no_fault (bead_binding columns vs vb i @ rest) st =
         Inl (AttributeError,
              st\<lparr>trace := trace st @
                [Pick_up_tip p300 None, Set_flow_aspirate p300 9, Set_flow_dispense p300 9]\<rparr>)"
  using assms
  by (simp add: bead_binding_def at_well_def getitem_A1 custom_mix_def on_pipette_def
      call_def no_fault_def done_stmt_def)

lemma run_aborts_at_premix:
  assumes "\<lceil>real_of_int (no_samples P) / 8\<rceil> = 1 \<or> \<lceil>real_of_int (no_samples P) / 8\<rceil> = 6"
  shows "exec no_fault (run P) init_robot =
         Inl (AttributeError,
              init_robot\<lparr>trace := set_up @
                [Pick_up_tip p300 None, Set_flow_aspirate p300 9, Set_flow_dispense p300 9]\<rparr>)"
proof -
  define columns where "columns = \<lceil>real_of_int (no_samples P) / 8\<rceil>"
  have c: "columns = 1 \<or> columns = 6" using assms by (simp add: columns_def)
  then have "1 \<le> columns" by auto
  then have up: "[1..columns] = 1 # [2..columns]" by (simp add: upto_rec1)
  obtain rest where r: "run P = set_up @
      (bead_binding columns (vol_samples P) (vol_samples P * ratio P) 1 @ rest)"
    by (simp add: run_def Let_def columns_def[symmetric] up)
  have "exec no_fault (run P) init_robot =
        exec no_fault (bead_binding columns (vol_samples P) (vol_samples P * ratio P) 1 @ rest)
          (init_robot\<lparr>trace := set_up\<rparr>)"
    unfolding r by (simp add: exec_append[where xs = set_up] exec_set_up)
  then show ?thesis by (simp add: premix_raises[OF c])
qed

text \<open>
  With any other number of columns from 1 to 12, every statement of the run has a pipette
  as its receiver and a well or a location as its place: on a driver that never fails
  the run goes through to its end.
\<close>

lemma step_well_typed:
  assumes "well_typed c"
  shows "raised (step no_fault c st) = None"
proof (cases c)
  case (Aspirate obj v l r)
  then show ?thesis using assms
    by (cases obj; cases l) (simp_all add: on_pipette_def call_def no_fault_def)
next
  case (Dispense obj v l r)
  then show ?thesis using assms
    by (cases obj; cases l) (simp_all add: on_pipette_def call_def no_fault_def)
next
  case (Set_clearance_aspirate obj h)
  then show ?thesis using assms by (cases obj) (simp_all add: on_pipette_def)
next
  case (Set_clearance_dispense obj h)
  then show ?thesis using assms by (cases obj) (simp_all add: on_pipette_def)
next
  case (Set_flow_aspirate obj h)
  then show ?thesis using assms by (cases obj) (simp_all add: on_pipette_def)
next
  case (Set_flow_dispense obj h)
  then show ?thesis using assms by (cases obj) (simp_all add: on_pipette_def)
next
  case (Blow_out obj l)
  then show ?thesis using assms
    by (cases obj) (simp_all add: on_pipette_def call_def no_fault_def)
next
  case (Pick_up_tip obj l)
  then show ?thesis using assms
    by (cases obj) (simp_all add: on_pipette_def call_def no_fault_def)
next
  case (Drop_tip obj)
  then show ?thesis using assms
    by (cases obj) (simp_all add: on_pipette_def call_def no_fault_def)
next
  case (Return_tip obj)
  then show ?thesis using assms
    by (cases obj) (simp_all add: on_pipette_def call_def no_fault_def)
next
  case (Transfer obj v src dst b)
  then show ?thesis using assms
    by (cases obj) (simp_all add: on_pipette_def call_def no_fault_def)
next
  case (Home obj)
  then show ?thesis using assms
    by (cases obj) (simp_all add: on_pipette_def call_def no_fault_def)
qed (use assms in \<open>simp_all add: call_def no_fault_def\<close>)

lemma exec_well_typed:
  "list_all well_typed cs \<Longrightarrow> raised (exec no_fault cs st) = None"
proof (induction cs arbitrary: st)
  case Nil
  then show ?case by simp
next
  case (Cons c cs)
  then have "raised (step no_fault c st) = None" by (simp add: step_well_typed)
  then obtain st' where "step no_fault c st = Inr st'"
    by (cases "step no_fault c st") auto
  then show ?case using Cons by simp
qed

lemma list_all_concat_map:
  "list_all P (concat (map f xs)) = list_all (\<lambda>x. list_all P (f x)) xs"
  by (induction xs) simp_all

lemma list_all_loop:
  "(\<And>i. 1 \<le> i \<Longrightarrow> i \<le> n \<Longrightarrow> list_all P (f i)) \<Longrightarrow>
   list_all P (concat (map f [1..n]))"
  by (auto simp: list_all_concat_map list_all_iff)

lemma custom_mix_well_typed:
  "list_all well_typed (custom_mix (Pipette p) reps v (Well w) a d)"
  by (simp add: custom_mix_def list_all_iff)

lemma add_ethanol_well_typed:
  assumes "1 \<le> i" "i \<le> 12"
  shows "list_all well_typed (add_ethanol i)"
proof -
  have "list_all well_typed
          (stepwise_dispense p300 190 (Well (Sample_plate, ''A'' @ str i)) 10)"
    by (simp add: stepwise_dispense_map power2_eq_square list_all_iff)
  then show ?thesis
    unfolding add_ethanol_def
    using at_well_A[OF assms, of Tiprack_7] at_well_A[OF assms, of Sample_plate]
      at_bottom_A[OF assms, of Resevoir_EtOH]
    by simp
qed

lemma bead_binding_well_typed:
  assumes "1 \<le> i" "i \<le> 12" "columns \<noteq> 1" "columns \<noteq> 6"
  shows "list_all well_typed (bead_binding columns vs vb i)"
  unfolding bead_binding_def
  using assms(3,4) getitem_A[OF assms(1,2), of Sample_plate]
  by (simp add: at_bottom_def at_well_def getitem_A1 custom_mix_well_typed)

lemma remove_supernatant_well_typed:
  "1 \<le> i \<Longrightarrow> i \<le> 12 \<Longrightarrow> list_all well_typed (remove_supernatant v i)"
  by (simp add: remove_supernatant_eq)

lemma remove_ethanol_well_typed:
  "1 \<le> k \<Longrightarrow> k \<le> 12 \<Longrightarrow> 1 \<le> i \<Longrightarrow> i \<le> 12 \<Longrightarrow>
   list_all well_typed (remove_ethanol n j (Some i) k)"
  by (simp add: remove_ethanol_eq)

lemma elution_well_typed:
  assumes "1 \<le> i" "i \<le> 12"
  shows "list_all well_typed (elution v i)"
  unfolding elution_def
  using getitem_A[OF assms, of Sample_plate]
  by (simp add: at_bottom_def at_well_def getitem_A3 custom_mix_well_typed)

lemma transfer_clean_well_typed:
  assumes "1 \<le> i" "i \<le> 12"
  shows "list_all well_typed (transfer_clean v i)"
  unfolding transfer_clean_def
  using at_bottom_A[OF assms, of Sample_plate] at_bottom_A[OF assms, of Clean_plate]
  by simp

lemma wash_cycle_well_typed:
  assumes "1 \<le> columns" "columns \<le> 12"
  shows "list_all well_typed (wash_cycle columns n i j)"
proof -
  have "list_all well_typed (concat (map add_ethanol [1..columns]))"
    using assms by (intro list_all_loop add_ethanol_well_typed) simp_all
  moreover have "list_all well_typed
      (concat (map (remove_ethanol n j (Some columns)) [1..columns]))"
    using assms by (intro list_all_loop remove_ethanol_well_typed) simp_all
  ultimately show ?thesis
    by (simp add: wash_cycle_def for_var_columns[OF assms(1)])
qed

lemma run_completes:
  assumes "1 \<le> \<lceil>real_of_int (no_samples P) / 8\<rceil>"
    and "\<lceil>real_of_int (no_samples P) / 8\<rceil> \<le> 12"
    and "\<lceil>real_of_int (no_samples P) / 8\<rceil> \<noteq> 1"
    and "\<lceil>real_of_int (no_samples P) / 8\<rceil> \<noteq> 6"
  shows "raised (exec no_fault (run P) init_robot) = None"
proof -
  define columns where "columns = \<lceil>real_of_int (no_samples P) / 8\<rceil>"
  have c: "1 \<le> columns" "columns \<le> 12" "columns \<noteq> 1" "columns \<noteq> 6"
    using assms by (simp_all add: columns_def)
  have 1: "list_all well_typed
      (concat (map (bead_binding columns (vol_samples P) (vol_samples P * ratio P))
         [1..columns]))"
    using c by (intro list_all_loop bead_binding_well_typed) simp_all
  have 2: "list_all well_typed
      (concat (map (remove_supernatant (vol_samples P * ratio P + vol_samples P))
         [1..columns]))"
    using c by (intro list_all_loop remove_supernatant_well_typed) simp_all
  have 3: "list_all well_typed
      (concat (map (wash_cycle columns (cleanings P) (for_var [1..columns] None))
         [1..cleanings P]))"
    using c by (intro list_all_loop wash_cycle_well_typed) simp_all
  have 4: "list_all well_typed (concat (map (elution (vol_EB P)) [1..columns]))"
    using c by (intro list_all_loop elution_well_typed) simp_all
  have 5: "list_all well_typed (concat (map (transfer_clean (vol_EB P)) [1..columns]))"
    using c by (intro list_all_loop transfer_clean_well_typed) simp_all
  have "list_all well_typed (run P)"
    using 1 2 3 4 5 by (simp add: run_def Let_def columns_def[symmetric] set_up_eq)
  then show ?thesis by (rule exec_well_typed)
qed

lemma run_default_completes:
  "raised (exec no_fault (run default_params) init_robot) = None"
  by (rule run_completes) (simp_all add: default_params_def)

text \<open>
  Claim C1, on the code. With 8 samples of 20 \<mu>l and bead ratio 0.8 the run has one
  column and a bead volume of 16 \<mu>l, and takes the pre-mix branch; on a driver that
  never fails, the pre-mix call raises \<^verbatim>\<open>AttributeError\<close> after the tip was picked up and
  the two flow rates were set, so that the run ends there: nothing was aspirated or
  dispensed, no beads reached well A1, and no mix took place.
\<close>

theorem run_8_samples_aborts:
  "\<lceil>real_of_int 8 / 8\<rceil> = (1::int) \<and> (20::real) * 0.8 = 16
   \<and> raised (exec no_fault
        (run \<lparr>no_samples = 8, vol_samples = 20, ratio = 0.8, cleanings = 1, vol_EB = 15\<rparr>)
        init_robot) = Some AttributeError
   \<and> trace (final_state (exec no_fault
        (run \<lparr>no_samples = 8, vol_samples = 20, ratio = 0.8, cleanings = 1, vol_EB = 15\<rparr>)
        init_robot)) =
       set_up @ [Pick_up_tip p300 None, Set_flow_aspirate p300 9, Set_flow_dispense p300 9]
   \<and> dispenses (trace (final_state (exec no_fault
        (run \<lparr>no_samples = 8, vol_samples = 20, ratio = 0.8, cleanings = 1, vol_EB = 15\<rparr>)
        init_robot))) = []
   \<and> aspirations (trace (final_state (exec no_fault
        (run \<lparr>no_samples = 8, vol_samples = 20, ratio = 0.8, cleanings = 1, vol_EB = 15\<rparr>)
        init_robot))) = []"
  using run_aborts_at_premix[of
      "\<lparr>no_samples = 8, vol_samples = 20, ratio = 0.8, cleanings = 1, vol_EB = 15\<rparr>"]
  by (simp add: set_up_eq dispenses_def aspirations_def map_filter_simps)

subsection \<open>The pause monitor\<close>

text \<open>
  Claim C8. One check of the monitor, the door reading being the same at its three
  reads: with the door open and the run not paused it pauses once and sets \<open>paused\<close>
  (and prints the notice); with the door closed and the run paused it resumes once and
  clears \<open>paused\<close>; with the door open and the run paused it only prints the notice;
  with the door closed and the run not paused it does nothing. The arguments of
  \<open>check_door\<close> are the three readings of \<^verbatim>\<open>door_closed\<close> and \<open>paused\<close>.
\<close>

theorem check_door_transitions:
  "check_door False False False False = ([Pause, Print notice], True)
   \<and> check_door True True True True = ([Resume], False)
   \<and> check_door False False False True = ([Print notice], True)
   \<and> check_door True True True False = ([], False)"
  by (simp add: check_door_def)

end
